theory Spec2Isabelle
  imports Main "HOL-Library.Sublist"
begin

section \<open>JavaScript strings\<close>

text \<open>
  A JavaScript string is modelled as a \<^typ>\<open>string\<close>: the list of its code units, restricted
  to the code units below 256. The white space of \<open>String.prototype.trim\<close> and of the
  regular expression class \<open>\s\<close> in that range is TAB, LF, VT, FF, CR, SPACE and NBSP.
\<close>

definition isWhiteSpace :: "char \<Rightarrow> bool" where
  "isWhiteSpace c = (of_char c \<in> {9, 10, 11, 12, 13, 32, 160 :: int})"

definition trim :: "string \<Rightarrow> string" where
  "trim s = rev (dropWhile isWhiteSpace (rev (dropWhile isWhiteSpace s)))"

definition toLowerChar :: "char \<Rightarrow> char" where
  "toLowerChar c =
     (let n = (of_char c :: int)
      in if (65 \<le> n \<and> n \<le> 90) \<or> (192 \<le> n \<and> n \<le> 222 \<and> n \<noteq> 215)
         then char_of (n + 32) else c)"

definition toLowerCase :: "string \<Rightarrow> string" where
  "toLowerCase s = map toLowerChar s"

text \<open>\<open>s.indexOf(pat)\<close>: the first position at which \<open>pat\<close> occurs, \<^const>\<open>None\<close> for \<open>-1\<close>.\<close>

fun indexOf :: "string \<Rightarrow> string \<Rightarrow> nat option" where
  "indexOf [] pat = (if pat = [] then Some 0 else None)"
| "indexOf (c # cs) pat = (if prefix pat (c # cs) then Some 0 else map_option Suc (indexOf cs pat))"

text \<open>\<open>s.includes(pat)\<close>\<close>

definition includesStr :: "string \<Rightarrow> string \<Rightarrow> bool" where
  "includesStr s pat = (indexOf s pat \<noteq> None)"

text \<open>The number of positions of \<open>s\<close> at which \<open>pat\<close> occurs (overlapping occurrences count).\<close>

fun occurrences :: "string \<Rightarrow> string \<Rightarrow> nat" where
  "occurrences pat [] = (if pat = [] then 1 else 0)"
| "occurrences pat (c # cs) = (if prefix pat (c # cs) then 1 else 0) + occurrences pat cs"

fun joinWith :: "string \<Rightarrow> string list \<Rightarrow> string" where
  "joinWith sep [] = []"
| "joinWith sep [x] = x"
| "joinWith sep (x # y # ys) = x @ sep @ joinWith sep (y # ys)"

section \<open>JSON values, \<open>JSON.stringify\<close> and \<open>JSON.parse\<close>\<close>

text \<open>
  The values that \<open>JSON.parse\<close> produces and \<open>JSON.stringify\<close> consumes. An object is the
  list of its properties in enumeration order: the keys that are array indices first, in
  ascending numeric order, then the other keys in insertion order. Numbers are the integers,
  which a double holds exactly and prints in decimal below \<open>2^53\<close> in absolute value: a
  numeral with a fraction or an exponent is a floating-point value and is left out of the
  model, as is a \<open>\u\<close> escape of a code unit above 255 (\<open>JSON_parse\<close> gives \<^const>\<open>None\<close> on both).
\<close>

datatype json =
    JNull
  | JBool bool
  | JNum int
  | JStr string
  | JArr "json list"
  | JObj "(string \<times> json) list"

definition digitChar :: "int \<Rightarrow> char" where
  "digitChar d = char_of (48 + d)"

fun showNat :: "nat \<Rightarrow> string" where
  "showNat n = (if n < 10 then [digitChar (int n)] else showNat (n div 10) @ [digitChar (int (n mod 10))])"

declare showNat.simps [simp del]

definition showInt :: "int \<Rightarrow> string" where
  "showInt i = (if i < 0 then CHR ''-'' # showNat (nat (- i)) else showNat (nat i))"

definition hexDigit :: "int \<Rightarrow> char" where
  "hexDigit d = (if d < 10 then char_of (48 + d) else char_of (87 + d))"

definition quoteChar :: "char \<Rightarrow> string" where
  "quoteChar c =
     (let n = (of_char c :: int)
      in if c = CHR 0x22 then [CHR 0x5C, CHR 0x22]
         else if c = CHR 0x5C then [CHR 0x5C, CHR 0x5C]
         else if n = 8 then [CHR 0x5C, CHR ''b'']
         else if n = 9 then [CHR 0x5C, CHR ''t'']
         else if n = 10 then [CHR 0x5C, CHR ''n'']
         else if n = 12 then [CHR 0x5C, CHR ''f'']
         else if n = 13 then [CHR 0x5C, CHR ''r'']
         else if n < 32 then [CHR 0x5C, CHR ''u'', CHR ''0'', CHR ''0'', hexDigit (n div 16), hexDigit (n mod 16)]
         else [c])"

definition quoteJSONString :: "string \<Rightarrow> string" where
  "quoteJSONString s = CHR 0x22 # concat (map quoteChar s) @ [CHR 0x22]"

fun JSON_stringify :: "json \<Rightarrow> string" where
  "JSON_stringify JNull = ''null''"
| "JSON_stringify (JBool b) = (if b then ''true'' else ''false'')"
| "JSON_stringify (JNum n) = showInt n"
| "JSON_stringify (JStr s) = quoteJSONString s"
| "JSON_stringify (JArr xs) = ''['' @ joinWith '','' (map JSON_stringify xs) @ '']''"
| "JSON_stringify (JObj kvs) =
     ''{'' @ joinWith '','' (map (\<lambda>(k, v). quoteJSONString k @ '':'' @ JSON_stringify v) kvs) @ ''}''"


definition isJsonWs :: "char \<Rightarrow> bool" where
  "isJsonWs c = (of_char c \<in> {9, 10, 13, 32 :: int})"

definition skipWs :: "string \<Rightarrow> string" where
  "skipWs s = dropWhile isJsonWs s"

definition isDigit :: "char \<Rightarrow> bool" where
  "isDigit c = (48 \<le> (of_char c :: int) \<and> (of_char c :: int) \<le> 57)"

definition digitsToInt :: "string \<Rightarrow> int" where
  "digitsToInt ds = foldl (\<lambda>acc c. 10 * acc + (of_char c - 48)) 0 ds"

definition hexValue :: "char \<Rightarrow> int option" where
  "hexValue c =
     (let n = (of_char c :: int)
      in if 48 \<le> n \<and> n \<le> 57 then Some (n - 48)
         else if 97 \<le> n \<and> n \<le> 102 then Some (n - 87)
         else if 65 \<le> n \<and> n \<le> 70 then Some (n - 55)
         else None)"

definition unescape :: "char \<Rightarrow> char option" where
  "unescape e =
     (if e = CHR 0x22 \<or> e = CHR 0x5C \<or> e = CHR ''/'' then Some e
      else if e = CHR ''b'' then Some (CHR 0x08)
      else if e = CHR ''f'' then Some (CHR 0x0C)
      else if e = CHR ''n'' then Some (CHR 0x0A)
      else if e = CHR ''r'' then Some (CHR 0x0D)
      else if e = CHR ''t'' then Some (CHR 0x09)
      else None)"

definition hex4 :: "char \<Rightarrow> char \<Rightarrow> char \<Rightarrow> char \<Rightarrow> int option" where
  "hex4 a b c d =
     (case (hexValue a, hexValue b, hexValue c, hexValue d) of
        (Some x, Some y, Some z, Some w) \<Rightarrow> Some (((x * 16 + y) * 16 + z) * 16 + w)
      | _ \<Rightarrow> None)"

definition consFst :: "'a \<Rightarrow> ('a list \<times> 'b) option \<Rightarrow> ('a list \<times> 'b) option" where
  "consFst x r = map_option (\<lambda>(xs, rest). (x # xs, rest)) r"

fun parseChars :: "string \<Rightarrow> (string \<times> string) option" where
  "parseChars [] = None"
| "parseChars (c # cs) =
     (if c = CHR 0x22 then Some ([], cs)
      else if c = CHR 0x5C then
        (case cs of
           [] \<Rightarrow> None
         | e # cs' \<Rightarrow>
             if e = CHR ''u'' then
               (case cs' of
                  h1 # h2 # h3 # h4 # cs'' \<Rightarrow>
                    (case hex4 h1 h2 h3 h4 of
                       Some n \<Rightarrow> if n < 256 then consFst (char_of n) (parseChars cs'') else None
                     | None \<Rightarrow> None)
                | _ \<Rightarrow> None)
             else (case unescape e of
                     Some ch \<Rightarrow> consFst ch (parseChars cs')
                   | None \<Rightarrow> None))
      else if (of_char c :: int) < 32 then None
      else consFst c (parseChars cs))"

definition parseNumber :: "string \<Rightarrow> (int \<times> string) option" where
  "parseNumber s =
     (let neg = (s \<noteq> [] \<and> hd s = CHR ''-'');
          r = (if neg then tl s else s);
          ds = takeWhile isDigit r;
          rest = dropWhile isDigit r
      in if ds = [] then None
         else if 1 < length ds \<and> hd ds = CHR ''0'' then None
         else if rest \<noteq> [] \<and> hd rest \<in> {CHR ''.'', CHR ''e'', CHR ''E''} then None
         else Some (if neg then - digitsToInt ds else digitsToInt ds, rest))"

definition isArrayIndex :: "string \<Rightarrow> bool" where
  "isArrayIndex k =
     (k \<noteq> [] \<and> list_all isDigit k \<and> (k = ''0'' \<or> hd k \<noteq> CHR ''0'') \<and> digitsToInt k < 4294967295)"

fun insertIndexKey :: "string \<times> 'v \<Rightarrow> (string \<times> 'v) list \<Rightarrow> (string \<times> 'v) list" where
  "insertIndexKey kv [] = [kv]"
| "insertIndexKey kv (x # xs) =
     (if isArrayIndex (fst x) \<and> digitsToInt (fst x) < digitsToInt (fst kv)
      then x # insertIndexKey kv xs else kv # x # xs)"

definition setKey :: "string \<Rightarrow> 'v \<Rightarrow> (string \<times> 'v) list \<Rightarrow> (string \<times> 'v) list" where
  "setKey k v kvs =
     (if k \<in> set (map fst kvs) then map (\<lambda>(k', v'). if k' = k then (k', v) else (k', v')) kvs
      else if isArrayIndex k then insertIndexKey (k, v) kvs
      else kvs @ [(k, v)])"

definition objectFromMembers :: "(string \<times> 'v) list \<Rightarrow> (string \<times> 'v) list" where
  "objectFromMembers ms = foldl (\<lambda>obj (k, v). setKey k v obj) [] ms"

type_synonym 'a parser = "string \<Rightarrow> ('a \<times> string) option"

definition valueStep :: "json list parser \<Rightarrow> (string \<times> json) list parser \<Rightarrow> json parser" where
  "valueStep elements members s =
     (case skipWs s of
        [] \<Rightarrow> None
      | c # cs \<Rightarrow>
          if c = CHR ''{'' then
            (case skipWs cs of
               [] \<Rightarrow> None
             | d # ds \<Rightarrow>
                 if d = CHR ''}'' then Some (JObj [], ds)
                 else map_option (\<lambda>(ms, r). (JObj (objectFromMembers ms), r)) (members (d # ds)))
          else if c = CHR ''['' then
            (case skipWs cs of
               [] \<Rightarrow> None
             | d # ds \<Rightarrow>
                 if d = CHR '']'' then Some (JArr [], ds)
                 else map_option (\<lambda>(xs, r). (JArr xs, r)) (elements (d # ds)))
          else if c = CHR 0x22 then map_option (\<lambda>(str, r). (JStr str, r)) (parseChars cs)
          else if c = CHR ''-'' \<or> isDigit c then map_option (\<lambda>(n, r). (JNum n, r)) (parseNumber (c # cs))
          else if prefix ''true'' (c # cs) then Some (JBool True, drop 4 (c # cs))
          else if prefix ''false'' (c # cs) then Some (JBool False, drop 5 (c # cs))
          else if prefix ''null'' (c # cs) then Some (JNull, drop 4 (c # cs))
          else None)"

definition elementsStep :: "json parser \<Rightarrow> json list parser \<Rightarrow> json list parser" where
  "elementsStep val elements s =
     (case val s of
        None \<Rightarrow> None
      | Some (v, r) \<Rightarrow>
          (case skipWs r of
             [] \<Rightarrow> None
           | c # cs \<Rightarrow>
               if c = CHR '']'' then Some ([v], cs)
               else if c = CHR '','' then consFst v (elements cs)
               else None))"

definition membersStep :: "json parser \<Rightarrow> (string \<times> json) list parser \<Rightarrow> (string \<times> json) list parser" where
  "membersStep val members s =
     (case skipWs s of
        [] \<Rightarrow> None
      | c # cs \<Rightarrow>
          if c \<noteq> CHR 0x22 then None
          else
            (case parseChars cs of
               None \<Rightarrow> None
             | Some (k, r) \<Rightarrow>
                 (case skipWs r of
                    [] \<Rightarrow> None
                  | c2 # r2 \<Rightarrow>
                      if c2 \<noteq> CHR '':'' then None
                      else
                        (case val r2 of
                           None \<Rightarrow> None
                         | Some (v, r3) \<Rightarrow>
                             (case skipWs r3 of
                                [] \<Rightarrow> None
                              | c3 # r4 \<Rightarrow>
                                  if c3 = CHR ''}'' then Some ([(k, v)], r4)
                                  else if c3 = CHR '','' then consFst (k, v) (members r4)
                                  else None)))))"

fun parseValue :: "nat \<Rightarrow> json parser"
  and parseElements :: "nat \<Rightarrow> json list parser"
  and parseMembers :: "nat \<Rightarrow> (string \<times> json) list parser" where
  "parseValue 0 s = None"
| "parseValue (Suc f) s = valueStep (parseElements f) (parseMembers f) s"
| "parseElements 0 s = None"
| "parseElements (Suc f) s = elementsStep (parseValue f) (parseElements f) s"
| "parseMembers 0 s = None"
| "parseMembers (Suc f) s = membersStep (parseValue f) (parseMembers f) s"

definition JSON_parse :: "string \<Rightarrow> json option" where
  "JSON_parse s =
     (case parseValue (Suc (length s)) s of
        None \<Rightarrow> None
      | Some (v, r) \<Rightarrow> if skipWs r = [] then Some v else None)"


text \<open>Truthiness (\<open>ToBoolean\<close>) of a JSON value; \<open>undefined\<close> is \<^const>\<open>None\<close> and falsy.\<close>

fun truthy :: "json \<Rightarrow> bool" where
  "truthy JNull = False"
| "truthy (JBool b) = b"
| "truthy (JNum n) = (n \<noteq> 0)"
| "truthy (JStr s) = (s \<noteq> [])"
| "truthy (JArr xs) = True"
| "truthy (JObj kvs) = True"

definition truthyOpt :: "json option \<Rightarrow> bool" where
  "truthyOpt v = (case v of None \<Rightarrow> False | Some x \<Rightarrow> truthy x)"

text \<open>
  \<open>v.k\<close> for one of the property names the code reads (\<open>agent\<close>, \<open>status\<close>, \<open>attempts\<close>,
  \<open>spec\<close>, \<open>tasks\<close>, ...): an object yields its own property, every other non-null value
  yields \<open>undefined\<close>. (Reading a property of \<open>null\<close> throws; the callers guard it.)
\<close>

fun getProp :: "json \<Rightarrow> string \<Rightarrow> json option" where
  "getProp (JObj kvs) k = map_of kvs k"
| "getProp v k = None"

text \<open>
  \<open>v.k = x\<close>: an object gets or updates its own property; on a primitive value the
  assignment is ignored (the scripts run in sloppy mode). An array would keep the property
  and \<open>JSON.stringify\<close> would not print it: a meta that is an array is left out of the model.
\<close>

fun setProp :: "json \<Rightarrow> string \<Rightarrow> json \<Rightarrow> json" where
  "setProp (JObj kvs) k x = JObj (setKey k x kvs)"
| "setProp v k x = v"


section \<open>The embedded agent-meta codec (task runner)\<close>

definition sentinel :: string where
  "sentinel = ''---agent-meta---''"

definition META_SEPARATOR :: string where
  "META_SEPARATOR = [CHR 0x0A, CHR 0x0A] @ sentinel @ [CHR 0x0A]"

text \<open>
  \<open>parseAgentMeta\<close>. A description is \<^const>\<open>None\<close> when the task has none; the result is the
  JavaScript value returned, \<open>null\<close> (\<^const>\<open>JNull\<close>) on every failure.
\<close>

definition parseAgentMeta :: "string option \<Rightarrow> json" where
  "parseAgentMeta description =
     (case description of
        None \<Rightarrow> JNull
      | Some d \<Rightarrow>
          if d = [] then JNull
          else (case indexOf d sentinel of
                  None \<Rightarrow> JNull
                | Some idx \<Rightarrow>
                    (case JSON_parse (trim (drop (idx + length sentinel) d)) of
                       Some v \<Rightarrow> v
                     | None \<Rightarrow> JNull)))"

definition getCleanDescription :: "string option \<Rightarrow> string" where
  "getCleanDescription description =
     (case description of
        None \<Rightarrow> []
      | Some d \<Rightarrow>
          if d = [] then []
          else (case indexOf d sentinel of
                  None \<Rightarrow> d
                | Some idx \<Rightarrow> trim (take idx d)))"

definition setAgentMeta :: "string option \<Rightarrow> json \<Rightarrow> string" where
  "setAgentMeta description meta =
     (let clean = getCleanDescription description
      in clean @ META_SEPARATOR @ JSON_stringify meta)"

section \<open>The board document and \<open>POST /api/board\<close>\<close>

text \<open>
  The board is the document of the data model: \<open>columns\<close>, \<open>initiatives\<close> and the
  server-owned \<open>backlog\<close>, which a stored or an incoming document may lack
  (\<open>undefined\<close> is \<^const>\<open>None\<close>). Tasks carry \<open>description\<close> and the legacy \<open>desc\<close>; the
  \<open>color\<close> is a number, \<open>0\<close> when none was given (\<open>body.color || 0\<close>).
\<close>

record Task =
  t_id :: string
  t_title :: "string option"
  t_description :: "string option"
  t_desc :: "string option"
  t_color :: nat

record Column =
  c_id :: string
  c_title :: string
  c_tasks :: "Task list"

record BacklogProject =
  p_id :: string
  p_title :: string
  p_specStatus :: string

record Board =
  columns :: "Column list"
  initiatives :: "string list"
  backlog :: "BacklogProject list option"

definition DEFAULT_BOARD :: Board where
  "DEFAULT_BOARD =
     \<lparr>columns =
        [\<lparr>c_id = ''col-todo'', c_title = ''To Do'', c_tasks = []\<rparr>,
         \<lparr>c_id = ''col-progress'', c_title = ''In Progress'', c_tasks = []\<rparr>,
         \<lparr>c_id = ''col-done'', c_title = ''Done'', c_tasks = []\<rparr>],
      initiatives = [],
      backlog = Some []\<rparr>"

record Request =
  r_method :: string
  r_authorization :: "string option"
  r_body :: Board

datatype Response =
    NoContent204
  | Unauthorized401
  | MethodNotAllowed405
  | BoardJson Board
  | OkTrue

text \<open>\<open>handleCors\<close>: an \<open>OPTIONS\<close> request is answered at once.\<close>

definition handleCors :: "Request \<Rightarrow> bool" where
  "handleCors req = (r_method req = ''OPTIONS'')"

text \<open>\<open>authHeader.replace(/^Bearer\s+/i, "")\<close>\<close>

definition stripBearer :: "string \<Rightarrow> string" where
  "stripBearer h =
     (if toLowerCase (take 6 h) = ''bearer'' \<and> drop 6 h \<noteq> [] \<and> isWhiteSpace (hd (drop 6 h))
      then dropWhile isWhiteSpace (drop 6 h) else h)"

text \<open>
  \<open>checkAuth\<close>: a request with no (or an empty) \<open>Authorization\<close> header is allowed; otherwise
  the token must equal the configured \<open>KANBAN_API_TOKEN\<close> (\<^const>\<open>None\<close> when unset).
\<close>

definition checkAuth :: "string option \<Rightarrow> Request \<Rightarrow> bool" where
  "checkAuth envToken req =
     (case r_authorization req of
        None \<Rightarrow> True
      | Some h \<Rightarrow> if h = [] then True else Some (stripBearer h) = envToken)"

text \<open>
  The store holds the board under one key; \<open>redisGet\<close> yields the default board when the
  key holds nothing, \<open>redisSet\<close> replaces what the key holds.
\<close>

definition redisGet :: "Board option \<Rightarrow> Board" where
  "redisGet store = (case store of Some b \<Rightarrow> b | None \<Rightarrow> DEFAULT_BOARD)"

definition redisSet :: "Board \<Rightarrow> Board option" where
  "redisSet b = Some b"

text \<open>The handler of \<open>/api/board\<close>: the response and the store after the request.\<close>

definition board_handler :: "string option \<Rightarrow> Board option \<Rightarrow> Request \<Rightarrow> Response \<times> Board option" where
  "board_handler envToken store req =
     (if handleCors req then (NoContent204, store)
      else if \<not> checkAuth envToken req then (Unauthorized401, store)
      else if r_method req = ''GET'' then (BoardJson (redisGet store), store)
      else if r_method req = ''POST'' then
        (let incoming = r_body req;
             current = redisGet store;
             incoming' = incoming\<lparr>backlog := Some (case backlog current of Some b \<Rightarrow> b | None \<Rightarrow> [])\<rparr>
         in (OkTrue, redisSet incoming'))
      else (MethodNotAllowed405, store))"

section \<open>The agent registry and the router (task runner)\<close>

record Agent =
  a_id :: string
  a_cmd :: string
  a_args :: "string list"
  a_keywords :: "string list"
  a_ramMB :: nat
  a_default :: bool
  a_enabled :: bool
  a_note :: "string option"

text \<open>\<open>task.description || task.desc\<close>\<close>

definition taskDescription :: "Task \<Rightarrow> string option" where
  "taskDescription task =
     (case t_description task of
        Some d \<Rightarrow> if d \<noteq> [] then Some d else t_desc task
      | None \<Rightarrow> t_desc task)"

text \<open>\<open>task.title || ""\<close>\<close>

definition taskTitle :: "Task \<Rightarrow> string" where
  "taskTitle task = (case t_title task of Some t \<Rightarrow> t | None \<Rightarrow> [])"

text \<open>The text that the keywords are looked up in.\<close>

definition routingText :: "Task \<Rightarrow> string" where
  "routingText task = toLowerCase (taskTitle task @ '' '' @ getCleanDescription (taskDescription task))"

text \<open>The inner loop of the router: the keywords of the agent that \<open>text.includes\<close> finds.\<close>

definition keywordScore :: "string \<Rightarrow> Agent \<Rightarrow> nat" where
  "keywordScore text agent = length (filter (\<lambda>kw. includesStr text kw) (a_keywords agent))"

text \<open>
  The \<open>scores\<close> object: \<open>scores[agent.id] = score\<close> for each enabled agent with keywords
  and a positive score, in registry order.
\<close>

definition scoreAgents :: "Agent list \<Rightarrow> string \<Rightarrow> (string \<times> nat) list" where
  "scoreAgents agentsConfig text =
     (let enabledAgents = filter (\<lambda>a. a_enabled a \<and> a_keywords a \<noteq> []) agentsConfig
      in foldl (\<lambda>scores agent.
                  let score = keywordScore text agent
                  in if 0 < score then setKey (a_id agent) score scores else scores)
               [] enabledAgents)"

text \<open>
  The routing by keywords. \<open>Object.entries(scores)\<close> enumerates the object; the sort by
  descending score is stable; the first entry wins.
\<close>

definition routeByKeywords :: "Agent list \<Rightarrow> Task \<Rightarrow> string" where
  "routeByKeywords agentsConfig task =
     (let entries = scoreAgents agentsConfig (routingText task)
      in case sort_key (\<lambda>e. - int (snd e)) entries of
           [] \<Rightarrow>
             (case find (\<lambda>a. a_enabled a \<and> a_default a) agentsConfig of
                Some defaultAgent \<Rightarrow> a_id defaultAgent
              | None \<Rightarrow>
                  (case find (\<lambda>a. a_enabled a) agentsConfig of
                     Some a \<Rightarrow> a_id a
                   | None \<Rightarrow> ''gemini''))
         | best # others \<Rightarrow> fst best)"

text \<open>
  \<open>routeToAgent\<close>: \<open>if (meta && meta.agent) return meta.agent\<close>, then the keywords. The result
  is the JavaScript value returned: the \<open>agent\<close> of the meta, whatever it is, or an id.
\<close>

definition routeToAgent :: "Agent list \<Rightarrow> Task \<Rightarrow> json" where
  "routeToAgent agentsConfig task =
     (let meta = parseAgentMeta (taskDescription task)
      in case (if truthy meta then getProp meta ''agent'' else None) of
           Some agent \<Rightarrow> if truthy agent then agent else JStr (routeByKeywords agentsConfig task)
         | None \<Rightarrow> JStr (routeByKeywords agentsConfig task))"



section \<open>The task supervisor and the result collector (task runner)\<close>



definition MAX_STDOUT :: nat where
  "MAX_STDOUT = 10 * 1024 * 1024"

text \<open>
  What \<open>spawnAgent\<close> resolves with. \<open>exitCode\<close> is \<open>null\<close> (\<^const>\<open>None\<close>) when a signal ended
  the process; \<open>timedOut\<close> is absent (\<^const>\<open>None\<close>) in the results built without a process
  and on a spawn error.
\<close>

record AgentResult =
  success :: bool
  stdout :: string
  stderr :: string
  exitCode :: "int option"
  durationMs :: nat
  timedOut :: "bool option"

text \<open>
  The events of a child process, in the order in which the handlers run: a chunk on
  \<open>stdout\<close> or \<open>stderr\<close> (already decoded by \<open>chunk.toString()\<close>), the supervisor's timer
  firing, \<open>close\<close> with the exit code, \<open>error\<close> with the message.
\<close>

datatype ProcEvent =
    StdoutData string
  | StderrData string
  | TimeoutFired
  | Close "int option"
  | ProcError string

record Capture =
  cap_stdout :: string
  cap_stderr :: string
  cap_killed :: bool

text \<open>The \<open>data\<close> handlers: \<open>if (stdout.length < MAX_STDOUT) stdout += chunk.toString()\<close>.\<close>

definition onData :: "string \<Rightarrow> string \<Rightarrow> string" where
  "onData buf chunk = (if length buf < MAX_STDOUT then buf @ chunk else buf)"

text \<open>
  The handlers run over the events until \<open>close\<close> or \<open>error\<close> resolves the promise;
  \<^const>\<open>None\<close> when neither arrives (the promise stays pending). \<open>elapsed\<close> is
  \<open>Date.now() - startTime\<close> at that moment.
\<close>

fun supervise :: "nat \<Rightarrow> Capture \<Rightarrow> ProcEvent list \<Rightarrow> AgentResult option" where
  "supervise elapsed cap [] = None"
| "supervise elapsed cap (StdoutData chunk # es) =
     supervise elapsed (cap\<lparr>cap_stdout := onData (cap_stdout cap) chunk\<rparr>) es"
| "supervise elapsed cap (StderrData chunk # es) =
     supervise elapsed (cap\<lparr>cap_stderr := onData (cap_stderr cap) chunk\<rparr>) es"
| "supervise elapsed cap (TimeoutFired # es) =
     supervise elapsed (cap\<lparr>cap_killed := True\<rparr>) es"
| "supervise elapsed cap (Close code # es) =
     Some \<lparr>success = (code = Some 0 \<and> \<not> cap_killed cap),
           stdout = cap_stdout cap,
           stderr = cap_stderr cap,
           exitCode = code,
           durationMs = elapsed,
           timedOut = Some (cap_killed cap)\<rparr>"
| "supervise elapsed cap (ProcError msg # es) =
     Some \<lparr>success = False,
           stdout = cap_stdout cap,
           stderr = msg,
           exitCode = Some (- 1),
           durationMs = elapsed,
           timedOut = None\<rparr>"



text \<open>
  For the statements about the capture: the chunks that a list of events delivers on each
  stream, whether an event ends the run, and the capture of a list of chunks by the
  \<open>data\<close> handler.
\<close>

fun outChunks :: "ProcEvent list \<Rightarrow> string list" where
  "outChunks [] = []"
| "outChunks (StdoutData c # es) = c # outChunks es"
| "outChunks (e # es) = outChunks es"

fun errChunks :: "ProcEvent list \<Rightarrow> string list" where
  "errChunks [] = []"
| "errChunks (StderrData c # es) = c # errChunks es"
| "errChunks (e # es) = errChunks es"

fun isTerminal :: "ProcEvent \<Rightarrow> bool" where
  "isTerminal (Close code) = True"
| "isTerminal (ProcError msg) = True"
| "isTerminal e = False"

definition captureAll :: "string list \<Rightarrow> string" where
  "captureAll chunks = foldl onData [] chunks"




section \<open>Processing one task (task runner)\<close>



















section \<open>Example registry and tasks\<close>



definition exTask :: Task where
  "exTask = \<lparr>t_id = ''task-a'', t_title = Some ''Implement Login'', t_description = Some ''add OAuth'',
             t_desc = None, t_color = 1\<rparr>"



text \<open>Two agents whose ids are array indices, listed in descending order of id.\<close>

definition exAgent2 :: Agent where
  "exAgent2 = \<lparr>a_id = ''2'', a_cmd = ''two'', a_args = [], a_keywords = [''login''], a_ramMB = 0,
               a_default = False, a_enabled = True, a_note = None\<rparr>"

definition exAgent1 :: Agent where
  "exAgent1 = \<lparr>a_id = ''1'', a_cmd = ''one'', a_args = [], a_keywords = [''login''], a_ramMB = 0,
               a_default = False, a_enabled = True, a_note = None\<rparr>"








section \<open>HTTP and the two board clients\<close>

text \<open>
  A request as the clients build it, and what \<open>fetch\<close> gives back: a network failure
  (\<open>fetch\<close> rejects) or a response with its status and body text. The environment is the
  function from requests to outcomes.
\<close>

record HttpRequest =
  hq_url :: string
  hq_method :: string
  hq_authorization :: "string option"
  hq_body :: "string option"

datatype HttpResponse =
    NetworkError string
  | Response nat string

text \<open>\<open>resp.ok\<close>\<close>

definition resp_ok :: "nat \<Rightarrow> bool" where
  "resp_ok status = (200 \<le> status \<and> status \<le> 299)"

text \<open>\<open>resp.json()\<close>: the parsed body, or the rejection as an error message.\<close>

definition resp_json :: "string \<Rightarrow> string + json" where
  "resp_json body = (case JSON_parse body of Some v \<Rightarrow> Inr v | None \<Rightarrow> Inl ''Unexpected token in JSON'')"

text \<open>
  \<open>kanbanFetch\<close> of the spec server: the result (\<^const>\<open>Inl\<close> the message of the error thrown)
  and the requests sent, in order.
\<close>

definition kanbanFetch ::
  "string \<Rightarrow> string \<Rightarrow> (HttpRequest \<Rightarrow> HttpResponse) \<Rightarrow> string \<Rightarrow> string \<Rightarrow> string option
     \<Rightarrow> (string + json) \<times> HttpRequest list" where
  "kanbanFetch KANBAN_API KANBAN_TOKEN fetch path method body =
     (let req = \<lparr>hq_url = KANBAN_API @ path, hq_method = method,
                  hq_authorization = (if KANBAN_TOKEN \<noteq> [] then Some (''Bearer '' @ KANBAN_TOKEN) else None),
                  hq_body = body\<rparr>
      in case fetch req of
           NetworkError e \<Rightarrow> (Inl e, [req])
         | Response status payload \<Rightarrow>
             if status = 401 \<and> KANBAN_TOKEN \<noteq> [] then
               (let req2 = req\<lparr>hq_authorization := None\<rparr>
                in case fetch req2 of
                     NetworkError e \<Rightarrow> (Inl e, [req, req2])
                   | Response status2 payload2 \<Rightarrow>
                       if \<not> resp_ok status2 then
                         (Inl (''Kanban API '' @ path @ '': '' @ showNat status2 @ '' (no-auth retry)''), [req, req2])
                       else (resp_json payload2, [req, req2]))
             else if \<not> resp_ok status then
               (Inl (''Kanban API '' @ path @ '': '' @ showNat status), [req])
             else (resp_json payload, [req]))"

text \<open>The helpers of the task runner: one request each.\<close>

definition kanbanRequest ::
  "string \<Rightarrow> string \<Rightarrow> (HttpRequest \<Rightarrow> HttpResponse) \<Rightarrow> string \<Rightarrow> string \<Rightarrow> string option
     \<Rightarrow> (string + json) \<times> HttpRequest list" where
  "kanbanRequest KANBAN_API KANBAN_TOKEN fetch method urlPath body =
     (let req = \<lparr>hq_url = KANBAN_API @ urlPath, hq_method = method,
                  hq_authorization = (if KANBAN_TOKEN \<noteq> [] then Some (''Bearer '' @ KANBAN_TOKEN) else None),
                  hq_body = body\<rparr>
      in case fetch req of
           NetworkError e \<Rightarrow> (Inl e, [req])
         | Response status payload \<Rightarrow>
             if \<not> resp_ok status then
               (Inl (''Kanban '' @ method @ '' '' @ urlPath @ '': '' @ showNat status), [req])
             else (resp_json payload, [req]))"

definition kanbanGet ::
  "string \<Rightarrow> string \<Rightarrow> (HttpRequest \<Rightarrow> HttpResponse) \<Rightarrow> string \<Rightarrow> (string + json) \<times> HttpRequest list" where
  "kanbanGet KANBAN_API KANBAN_TOKEN fetch urlPath =
     kanbanRequest KANBAN_API KANBAN_TOKEN fetch ''GET'' urlPath None"

definition kanbanPut ::
  "string \<Rightarrow> string \<Rightarrow> (HttpRequest \<Rightarrow> HttpResponse) \<Rightarrow> string \<Rightarrow> json \<Rightarrow> (string + json) \<times> HttpRequest list" where
  "kanbanPut KANBAN_API KANBAN_TOKEN fetch urlPath data =
     kanbanRequest KANBAN_API KANBAN_TOKEN fetch ''PUT'' urlPath (Some (JSON_stringify data))"

definition kanbanPost ::
  "string \<Rightarrow> string \<Rightarrow> (HttpRequest \<Rightarrow> HttpResponse) \<Rightarrow> string \<Rightarrow> json \<Rightarrow> (string + json) \<times> HttpRequest list" where
  "kanbanPost KANBAN_API KANBAN_TOKEN fetch urlPath data =
     kanbanRequest KANBAN_API KANBAN_TOKEN fetch ''POST'' urlPath (Some (JSON_stringify data))"

text \<open>A board that rejects the token and serves anonymous requests.\<close>

definition exFetchTokenMismatch :: "HttpRequest \<Rightarrow> HttpResponse" where
  "exFetchTokenMismatch req =
     (case hq_authorization req of
        Some h \<Rightarrow> Response 401 ''{\"error\":\"Unauthorized\"}''
      | None \<Rightarrow> Response 200 ''{\"ok\":true}'')"

section \<open>The LLM fallback chain (spec server)\<close>














section \<open>The structured output extractor (spec server)\<close>

text \<open>\<open>.replace(/^```(?:json)?\s*\n?/i, "")\<close>: an opening fence, its language tag and the white space after it.\<close>

definition stripLeadingFence :: "string \<Rightarrow> string" where
  "stripLeadingFence s =
     (if prefix ''```'' s then
        (let r = drop 3 s;
             r' = (if toLowerCase (take 4 r) = ''json'' then drop 4 r else r)
         in dropWhile isWhiteSpace r')
      else s)"

text \<open>
  \<open>.replace(/\n?```\s*$/i, "")\<close>: a closing fence followed by white space only, with the line
  feed before it.
\<close>

definition stripTrailingFence :: "string \<Rightarrow> string" where
  "stripTrailingFence s =
     (let t = rev (dropWhile isWhiteSpace (rev s))
      in if suffix ''```'' t then
           (let u = take (length t - 3) t
            in if u \<noteq> [] \<and> last u = CHR 0x0A then butlast u else u)
         else s)"

lemma indexOf_Some_nonempty: "indexOf s pat = Some i \<Longrightarrow> pat \<noteq> [] \<Longrightarrow> s \<noteq> []"
  by (cases s) auto

text \<open>
  \<open>.replace(/<think>[\s\S]*?<\/think>\s*/g, "")\<close>: every block from an opening tag to the
  nearest closing tag, and the white space after it, scanning on after each block.
\<close>

function removeThink :: "string \<Rightarrow> string" where
  "removeThink s =
     (case indexOf s ''<think>'' of
        None \<Rightarrow> s
      | Some i \<Rightarrow>
          (case indexOf (drop (i + 7) s) ''</think>'' of
             None \<Rightarrow> s
           | Some j \<Rightarrow> take i s @ removeThink (dropWhile isWhiteSpace (drop (i + 7 + j + 8) s))))"
  by pat_completeness auto
termination
proof (relation "measure length")
  show "wf (measure length)" by simp
next
  fix s :: string and i j
  assume "indexOf s ''<think>'' = Some i"
  then have "s \<noteq> []" by (rule indexOf_Some_nonempty) simp
  then have "length (drop (i + 7 + j + 8) s) < length s" by simp
  moreover have "length (dropWhile isWhiteSpace (drop (i + 7 + j + 8) s)) \<le> length (drop (i + 7 + j + 8) s)"
    by (rule length_dropWhile_le)
  ultimately show "(dropWhile isWhiteSpace (drop (i + 7 + j + 8) s), s) \<in> measure length" by simp
qed

declare removeThink.simps [simp del]

text \<open>The text that the parsers see.\<close>

definition cleanOutput :: "string \<Rightarrow> string" where
  "cleanOutput txt = trim (removeThink (stripTrailingFence (stripLeadingFence (trim txt))))"

text \<open>
  The test on a parsed value, inside \<open>try\<close>: \<open>parsed.spec\<close> of \<open>null\<close> throws, which the
  \<open>catch\<close> turns into falling through; a value with \<open>spec\<close> is returned, with \<open>tasks\<close> set to
  the empty array when \<open>!parsed.tasks\<close>.
\<close>

definition acceptParsed :: "json \<Rightarrow> json option" where
  "acceptParsed parsed =
     (if parsed = JNull then None
      else (case getProp parsed ''spec'' of
              None \<Rightarrow> None
            | Some spec \<Rightarrow>
                Some (if truthyOpt (getProp parsed ''tasks'') then parsed
                      else setProp parsed ''tasks'' (JArr []))))"

definition parseAndAccept :: "string \<Rightarrow> json option" where
  "parseAndAccept s = (case JSON_parse s of Some parsed \<Rightarrow> acceptParsed parsed | None \<Rightarrow> None)"

text \<open>
  \<open>cleaned.match(/\{[\s\S]*"spec"[\s\S]*\}/)\<close>: from the first opening brace to the last
  closing brace, when \<open>"spec"\<close> occurs between them.
\<close>

definition matchSpecObject :: "string \<Rightarrow> string option" where
  "matchSpecObject cleaned =
     (case indexOf cleaned ''{'' of
        None \<Rightarrow> None
      | Some p \<Rightarrow>
          (case indexOf (rev cleaned) ''}'' of
             None \<Rightarrow> None
           | Some k \<Rightarrow>
               (let q = length cleaned - 1 - k
                in if p < q \<and> includesStr (take (q - p - 1) (drop (p + 1) cleaned)) ''\"spec\"''
                   then Some (take (q + 1 - p) (drop p cleaned))
                   else None)))"

text \<open>The pieces of the regular expressions of the last layer.\<close>

text \<open>\<open>"key"\s*:\s*\<close> at the start of \<open>s\<close>: what follows it.\<close>

definition matchKeyColon :: "string \<Rightarrow> string \<Rightarrow> string option" where
  "matchKeyColon key s =
     (if prefix key s then
        (case dropWhile isWhiteSpace (drop (length key) s) of
           [] \<Rightarrow> None
         | c # r \<Rightarrow> if c = CHR '':'' then Some (dropWhile isWhiteSpace r) else None)
      else None)"

text \<open>\<open>"\s*,\s*"tasks"\<close> at the start of \<open>s\<close>.\<close>

definition specTerminatorAt :: "string \<Rightarrow> bool" where
  "specTerminatorAt s =
     (case s of
        [] \<Rightarrow> False
      | c # r \<Rightarrow>
          c = CHR 0x22
          \<and> (case dropWhile isWhiteSpace r of
                [] \<Rightarrow> False
              | d # r2 \<Rightarrow> d = CHR '','' \<and> prefix ''\"tasks\"'' (dropWhile isWhiteSpace r2)))"

text \<open>The shortest prefix of \<open>s\<close> after which \<open>P\<close> holds (a lazy \<open>[\s\S]*?\<close>).\<close>

fun lazyUntil :: "(string \<Rightarrow> bool) \<Rightarrow> string \<Rightarrow> string option" where
  "lazyUntil P [] = (if P [] then Some [] else None)"
| "lazyUntil P (c # cs) = (if P (c # cs) then Some [] else map_option ((#) c) (lazyUntil P cs))"

text \<open>The match at the leftmost position of \<open>s\<close> at which \<open>m\<close> matches.\<close>

fun firstMatch :: "(string \<Rightarrow> 'a option) \<Rightarrow> string \<Rightarrow> 'a option" where
  "firstMatch m [] = m []"
| "firstMatch m (c # cs) = (case m (c # cs) of Some r \<Rightarrow> Some r | None \<Rightarrow> firstMatch m cs)"

text \<open>The capture of \<open>/"spec"\s*:\s*"([\s\S]*?)"\s*,\s*"tasks"/\<close>.\<close>

definition specMatch :: "string \<Rightarrow> string option" where
  "specMatch cleaned =
     firstMatch (\<lambda>s. case matchKeyColon ''\"spec\"'' s of
                        None \<Rightarrow> None
                      | Some [] \<Rightarrow> None
                      | Some (q # r) \<Rightarrow> if q = CHR 0x22 then lazyUntil specTerminatorAt r else None)
       cleaned"

text \<open>\<open>\s*\}?\s*$\<close> matches the whole of \<open>s\<close>.\<close>

definition tasksTail :: "string \<Rightarrow> bool" where
  "tasksTail s =
     (case dropWhile isWhiteSpace s of
        [] \<Rightarrow> True
      | c # r \<Rightarrow> c = CHR ''}'' \<and> dropWhile isWhiteSpace r = [])"

text \<open>The longest prefix of \<open>s\<close> that ends with \<open>]\<close> and is followed by such a tail (a greedy \<open>[\s\S]*\]\<close>).\<close>

fun greedyClose :: "string \<Rightarrow> string option" where
  "greedyClose [] = None"
| "greedyClose (c # cs) =
     (case greedyClose cs of
        Some p \<Rightarrow> Some (c # p)
      | None \<Rightarrow> if c = CHR '']'' \<and> tasksTail cs then Some [c] else None)"

text \<open>The capture of \<open>/"tasks"\s*:\s*(\[[\s\S]*\])\s*\}?\s*$/\<close>.\<close>

definition tasksMatch :: "string \<Rightarrow> string option" where
  "tasksMatch cleaned =
     firstMatch (\<lambda>s. case matchKeyColon ''\"tasks\"'' s of
                        None \<Rightarrow> None
                      | Some [] \<Rightarrow> None
                      | Some (b # r) \<Rightarrow> if b = CHR ''['' then map_option ((#) b) (greedyClose r) else None)
       cleaned"

text \<open>\<open>s.replace(/ab/g, rep)\<close> for a pattern of two characters.\<close>

fun replacePair :: "char \<Rightarrow> char \<Rightarrow> string \<Rightarrow> string \<Rightarrow> string" where
  "replacePair a b rep (x # y # r) =
     (if x = a \<and> y = b then rep @ replacePair a b rep r else x # replacePair a b rep (y # r))"
| "replacePair a b rep s = s"

definition unescapeSpec :: "string \<Rightarrow> string" where
  "unescapeSpec s =
     replacePair (CHR 0x5C) (CHR 0x5C) [CHR 0x5C]
       (replacePair (CHR 0x5C) (CHR 0x22) [CHR 0x22]
          (replacePair (CHR 0x5C) (CHR ''n'') [CHR 0x0A] s))"

text \<open>\<open>"([^"]*?)"\<close> at the start of \<open>s\<close>: the capture and what follows the closing quote.\<close>

definition quotedAt :: "string \<Rightarrow> (string \<times> string) option" where
  "quotedAt s =
     (case s of
        [] \<Rightarrow> None
      | c # r \<Rightarrow>
          if c = CHR 0x22 then
            (case dropWhile (\<lambda>x. x \<noteq> CHR 0x22) r of
               [] \<Rightarrow> None
             | q # rest \<Rightarrow> Some (takeWhile (\<lambda>x. x \<noteq> CHR 0x22) r, rest))
          else None)"

text \<open>\<open>/"title"\s*:\s*"([^"]*?)"\s*,\s*"details"\s*:\s*"([^"]*?)"/\<close> at the start of \<open>s\<close>.\<close>

definition taskPairAt :: "string \<Rightarrow> ((string \<times> string) \<times> string) option" where
  "taskPairAt s =
     (case matchKeyColon ''\"title\"'' s of
        None \<Rightarrow> None
      | Some r \<Rightarrow>
          (case quotedAt r of
             None \<Rightarrow> None
           | Some (title, r2) \<Rightarrow>
               (case dropWhile isWhiteSpace r2 of
                  [] \<Rightarrow> None
                | c # r3 \<Rightarrow>
                    if c = CHR '','' then
                      (case matchKeyColon ''\"details\"'' (dropWhile isWhiteSpace r3) of
                         None \<Rightarrow> None
                       | Some r4 \<Rightarrow>
                           (case quotedAt r4 of
                              None \<Rightarrow> None
                            | Some (details, r5) \<Rightarrow> Some ((title, details), r5)))
                    else None)))"

text \<open>The matches of \<open>matchAll\<close>: \<open>fuel\<close> bounds the positions tried and is the length of the text.\<close>

fun scanTasks :: "nat \<Rightarrow> string \<Rightarrow> (string \<times> string) list" where
  "scanTasks 0 s = []"
| "scanTasks (Suc fuel) [] = []"
| "scanTasks (Suc fuel) (c # cs) =
     (case taskPairAt (c # cs) of
        Some (p, rest) \<Rightarrow> p # scanTasks fuel rest
      | None \<Rightarrow> scanTasks fuel cs)"

text \<open>The last layer: \<open>spec\<close> and \<open>tasks\<close> extracted separately.\<close>

definition regexFallback :: "string \<Rightarrow> json option" where
  "regexFallback cleaned =
     (case specMatch cleaned of
        None \<Rightarrow> None
      | Some specCapture \<Rightarrow>
          (case tasksMatch cleaned of
             None \<Rightarrow> None
           | Some tasksCapture \<Rightarrow>
               (let spec = unescapeSpec specCapture;
                    tasks = (case JSON_parse tasksCapture of
                               Some v \<Rightarrow> v
                             | None \<Rightarrow>
                                 JArr (map (\<lambda>(title, details). JObj [(''title'', JStr title), (''details'', JStr details)])
                                         (scanTasks (length tasksCapture) tasksCapture)))
                in if spec \<noteq> [] \<and> (case tasks of JArr xs \<Rightarrow> xs \<noteq> [] | _ \<Rightarrow> False)
                   then Some (JObj [(''spec'', JStr spec), (''tasks'', tasks)])
                   else None)))"

text \<open>\<open>extractJSON\<close>: the object returned, or the message of the error thrown.\<close>

definition extractJSON :: "string \<Rightarrow> string + json" where
  "extractJSON txt =
     (let cleaned = cleanOutput txt
      in case parseAndAccept cleaned of
           Some parsed \<Rightarrow> Inr parsed
         | None \<Rightarrow>
             (case (case matchSpecObject cleaned of
                      Some m \<Rightarrow> parseAndAccept m
                    | None \<Rightarrow> None) of
                Some parsed \<Rightarrow> Inr parsed
              | None \<Rightarrow>
                  (case regexFallback cleaned of
                     Some r \<Rightarrow> Inr r
                   | None \<Rightarrow> Inl ''Could not extract spec JSON from LLM output'')))"



definition exThinkOutput :: string where
  "exThinkOutput =
     ''<think>plan</think>'' @ [CHR 0x0A]
     @ ''{\"spec\":\"say \"hi\" twice\",\"tasks\":[{\"title\":\"T\",\"details\":\"D\"}]}''"

section \<open>Properties\<close>

subsection \<open>Saving the board preserves the backlog\<close>

text \<open>
  C9. \<open>POST /api/board\<close>: whenever the handler persists a board (the request is a \<open>POST\<close> that
  passes the authorisation check), the persisted board has the backlog of the board read
  from the store, the empty list if that board has none, whatever backlog the incoming
  document carries; the incoming columns and initiatives are persisted as sent.
\<close>

theorem saveBoard_preserves_backlog:
  assumes "r_method req = ''POST''" and "checkAuth envToken req"
  shows "\<exists>saved. snd (board_handler envToken store req) = Some saved
           \<and> backlog saved = Some (case backlog (redisGet store) of Some b \<Rightarrow> b | None \<Rightarrow> [])
           \<and> columns saved = columns (r_body req)
           \<and> initiatives saved = initiatives (r_body req)"
  using assms by (simp add: board_handler_def handleCors_def redisSet_def Let_def)

theorem saveBoard_preserves_backlog_witness:
  "snd (board_handler (Some ''tok'') (Some \<lparr>columns = [], initiatives = [], backlog = Some [\<lparr>p_id = ''proj-1'', p_title = ''P'', p_specStatus = ''none''\<rparr>]\<rparr>)
        \<lparr>r_method = ''POST'', r_authorization = Some ''Bearer tok'',
         r_body = \<lparr>columns = [\<lparr>c_id = ''c'', c_title = ''Queue'', c_tasks = []\<rparr>], initiatives = [''i''], backlog = Some []\<rparr>\<rparr>)
   = Some \<lparr>columns = [\<lparr>c_id = ''c'', c_title = ''Queue'', c_tasks = []\<rparr>], initiatives = [''i''],
           backlog = Some [\<lparr>p_id = ''proj-1'', p_title = ''P'', p_specStatus = ''none''\<rparr>]\<rparr>"
proof -
  let ?req = "\<lparr>r_method = ''POST'', r_authorization = Some ''Bearer tok'',
         r_body = \<lparr>columns = [\<lparr>c_id = ''c'', c_title = ''Queue'', c_tasks = []\<rparr>], initiatives = [''i''], backlog = Some []\<rparr>\<rparr>"
  let ?store = "Some \<lparr>columns = [], initiatives = [], backlog = Some [\<lparr>p_id = ''proj-1'', p_title = ''P'', p_specStatus = ''none''\<rparr>]\<rparr>"
  have m: "r_method ?req = ''POST''" by simp
  have a: "checkAuth (Some ''tok'') ?req"
    by code_simp
  from saveBoard_preserves_backlog [OF m a, of ?store]
  obtain saved where s: "snd (board_handler (Some ''tok'') ?store ?req) = Some saved"
    and b: "backlog saved = Some (case backlog (redisGet ?store) of Some b \<Rightarrow> b | None \<Rightarrow> [])"
    and c: "columns saved = columns (r_body ?req)"
    and i: "initiatives saved = initiatives (r_body ?req)"
    by blast
  have "saved = \<lparr>columns = columns saved, initiatives = initiatives saved, backlog = backlog saved\<rparr>"
    by simp
  with s b c i show ?thesis by (simp add: redisGet_def)
qed

subsection \<open>Strings: first occurrence, occurrences and trimming\<close>

lemma indexOf_None_iff: "indexOf s pat = None \<longleftrightarrow> \<not> sublist pat s"
  by (induction s) (auto simp: sublist_Cons_right)

lemma indexOf_Some_take: "indexOf s pat = Some i \<Longrightarrow> i \<le> length s \<and> prefix pat (drop i s) \<and> (pat \<noteq> [] \<longrightarrow> \<not> sublist pat (take i s))"
proof (induction s arbitrary: i)
  case Nil
  then show ?case by (auto split: if_splits)
next
  case (Cons c cs)
  show ?case
  proof (cases "prefix pat (c # cs)")
    case True
    with Cons.prems show ?thesis by auto
  next
    case False
    with Cons.prems obtain j where j: "indexOf cs pat = Some j" "i = Suc j" by auto
    from Cons.IH [OF j(1)] have ih: "j \<le> length cs" "prefix pat (drop j cs)" "pat \<noteq> [] \<longrightarrow> \<not> sublist pat (take j cs)" by auto
    have "pat \<noteq> [] \<longrightarrow> \<not> sublist pat (c # take j cs)"
    proof (intro impI notI)
      assume ne: "pat \<noteq> []" and sub: "sublist pat (c # take j cs)"
      from sub ih(3) ne have "prefix pat (c # take j cs)" by (simp add: sublist_Cons_right)
      moreover have "prefix (c # take j cs) (c # cs)" by (simp add: take_is_prefix)
      ultimately have "prefix pat (c # cs)" by (rule prefix_order.trans)
      with False show False by simp
    qed
    with ih j show ?thesis by simp
  qed
qed

lemma no_straddle:
  assumes "c \<notin> set pat" and "prefix pat (xs @ c # ys)"
  shows "prefix pat xs"
proof -
  from assms(2) have "prefix pat xs \<or> (\<exists>us. pat = xs @ us \<and> prefix us (c # ys))"
    by (simp add: prefix_append)
  then show ?thesis
  proof
    assume "prefix pat xs" then show ?thesis .
  next
    assume "\<exists>us. pat = xs @ us \<and> prefix us (c # ys)"
    then obtain us where us: "pat = xs @ us" "prefix us (c # ys)" by blast
    show ?thesis
    proof (cases us)
      case Nil with us show ?thesis by simp
    next
      case (Cons u us')
      with us(2) have "u = c" by simp
      with Cons us(1) assms(1) show ?thesis by simp
    qed
  qed
qed

lemma indexOf_append_sep:
  assumes "c \<notin> set pat" and "pat \<noteq> []" and "indexOf xs pat = None"
  shows "indexOf (xs @ c # ys) pat = map_option (\<lambda>i. length xs + 1 + i) (indexOf ys pat)"
  using assms(3)
proof (induction xs)
  case Nil
  from assms(1,2) have "\<not> prefix pat (c # ys)" by (cases pat) auto
  then show ?case by (simp add: option.map_comp comp_def)
next
  case (Cons x xs)
  from Cons.prems have np: "\<not> prefix pat (x # xs)" and n: "indexOf xs pat = None"
    by (auto split: if_splits)
  have "\<not> prefix pat ((x # xs) @ c # ys)"
    using no_straddle [OF assms(1), of "x # xs" ys] np by blast
  with Cons.IH [OF n] show ?case by (simp add: option.map_comp comp_def)
qed

lemma occurrences_append_sep:
  assumes "c \<notin> set pat" and "pat \<noteq> []"
  shows "occurrences pat (xs @ c # ys) = occurrences pat xs + occurrences pat ys"
proof (induction xs)
  case Nil
  from assms have "\<not> prefix pat (c # ys)" by (cases pat) auto
  with assms(2) show ?case by simp
next
  case (Cons x xs)
  have "prefix pat ((x # xs) @ c # ys) \<longleftrightarrow> prefix pat (x # xs)"
    using no_straddle [OF assms(1), of "x # xs" ys] prefix_order.trans [of pat "x # xs" "(x # xs) @ c # ys"]
    by auto
  with Cons.IH show ?case by simp
qed

lemma occurrences_zero: "indexOf s pat = None \<Longrightarrow> occurrences pat s = 0"
  by (induction s) (auto split: if_splits)

lemma trim_sublist: "sublist (trim s) s"
proof -
  let ?t = "dropWhile isWhiteSpace s"
  have "prefix (rev (dropWhile isWhiteSpace (rev ?t))) ?t"
  proof -
    have "rev ?t = takeWhile isWhiteSpace (rev ?t) @ dropWhile isWhiteSpace (rev ?t)" by simp
    then have "?t = rev (dropWhile isWhiteSpace (rev ?t)) @ rev (takeWhile isWhiteSpace (rev ?t))"
      by (metis rev_append rev_rev_ident)
    then show ?thesis by (metis prefixI)
  qed
  then have "sublist (trim s) ?t" by (simp add: trim_def)
  moreover have "sublist ?t s" by (simp add: suffix_dropWhile)
  ultimately show ?thesis by (rule sublist_order.order.trans)
qed

subsection \<open>The agent-meta codec\<close>

lemma sentinel_facts: "sentinel \<noteq> []" "CHR 0x0A \<notin> set sentinel" "length sentinel = 16"
  by (simp_all add: sentinel_def)

lemma clean_no_sentinel: "indexOf (getCleanDescription d) sentinel = None"
proof (cases d)
  case None
  then show ?thesis by (simp add: getCleanDescription_def sentinel_facts)
next
  case (Some s)
  show ?thesis
  proof (cases "s = []")
    case True with Some show ?thesis by (simp add: getCleanDescription_def sentinel_facts)
  next
    case False
    show ?thesis
    proof (cases "indexOf s sentinel")
      case None
      with Some False show ?thesis by (simp add: getCleanDescription_def)
    next
      case (Some idx)
      from indexOf_Some_take [OF Some] sentinel_facts(1)
      have "\<not> sublist sentinel (take idx s)" by simp
      moreover have "sublist (trim (take idx s)) (take idx s)" by (rule trim_sublist)
      ultimately have "\<not> sublist sentinel (trim (take idx s))"
        using sublist_order.order.trans by blast
      with Some False \<open>d = Some s\<close> show ?thesis
        by (simp add: getCleanDescription_def indexOf_None_iff)
    qed
  qed
qed


lemma dropWhile_all: "\<forall>x\<in>set ws. P x \<Longrightarrow> dropWhile P (ws @ t) = dropWhile P t"
  by (induction ws) auto

lemma trim_append_ws:
  assumes "list_all isWhiteSpace ws"
  shows "trim (s @ ws) = trim s"
proof -
  have "\<forall>x\<in>set (rev ws). isWhiteSpace x" using assms by (simp add: list_all_iff)
  then have dw: "dropWhile isWhiteSpace (rev ws @ t) = dropWhile isWhiteSpace t" for t
    by (rule dropWhile_all)
  show ?thesis
  proof (cases "list_all isWhiteSpace s")
    case True
    have a: "dropWhile isWhiteSpace (s @ ws) = []" using True assms by (auto simp: list_all_iff)
    have b: "dropWhile isWhiteSpace s = []" using True by (auto simp: list_all_iff)
    show ?thesis unfolding trim_def a b by (rule refl)
  next
    case False
    then obtain x where "x \<in> set s" "\<not> isWhiteSpace x" by (auto simp: list_all_iff)
    then have "dropWhile isWhiteSpace (s @ ws) = dropWhile isWhiteSpace s @ ws"
      by (rule dropWhile_append1)
    then show ?thesis by (simp add: trim_def dw)
  qed
qed

lemma trim_ws_prefix:
  assumes "list_all isWhiteSpace ws" and "s \<noteq> []" and "\<not> isWhiteSpace (hd s)" and "\<not> isWhiteSpace (last s)"
  shows "trim (ws @ s) = s"
proof -
  have "dropWhile isWhiteSpace (ws @ s) = dropWhile isWhiteSpace s"
    using assms(1) by (intro dropWhile_all) (simp add: list_all_iff)
  moreover have "dropWhile isWhiteSpace s = s"
    using assms by (cases s) simp_all
  ultimately have "dropWhile isWhiteSpace (ws @ s) = s" by simp
  moreover have "dropWhile isWhiteSpace (rev s) = rev s"
    using assms by (cases "rev s") (simp_all add: last_rev [symmetric] hd_rev)
  ultimately show ?thesis by (simp add: trim_def)
qed

lemma trim_ends:
  assumes "trim s \<noteq> []"
  shows "\<not> isWhiteSpace (hd (trim s))" and "\<not> isWhiteSpace (last (trim s))"
proof -
  define t where "t = dropWhile isWhiteSpace s"
  define r where "r = dropWhile isWhiteSpace (rev t)"
  have tr: "trim s = rev r" by (simp add: trim_def t_def r_def)
  with assms have rne: "r \<noteq> []" by simp
  then have "\<not> isWhiteSpace (hd r)" unfolding r_def by (rule hd_dropWhile)
  with rne show "\<not> isWhiteSpace (last (trim s))" by (simp add: tr last_rev)
  have tne: "t \<noteq> []"
  proof
    assume "t = []"
    then have "r = []" by (simp add: r_def)
    with rne show False by simp
  qed
  then have ht: "\<not> isWhiteSpace (hd t)" unfolding t_def by (rule hd_dropWhile)
  have "rev t = takeWhile isWhiteSpace (rev t) @ r" by (simp add: r_def)
  then have "rev (rev t) = rev (takeWhile isWhiteSpace (rev t) @ r)" by simp
  then have "t = rev r @ rev (takeWhile isWhiteSpace (rev t))" by simp
  then have "hd t = hd (rev r @ rev (takeWhile isWhiteSpace (rev t)))" by simp
  also have "\<dots> = hd (rev r)" using rne by simp
  finally show "\<not> isWhiteSpace (hd (trim s))" using ht by (simp add: tr)
qed

lemma trim_idem: "trim (trim s) = trim s"
proof (cases "trim s = []")
  case True
  have "trim [] = []" by (simp add: trim_def)
  with True show ?thesis by simp
next
  case False
  from trim_ws_prefix [of "[]" "trim s"] False trim_ends [OF False] show ?thesis by simp
qed


lemma digitChar_not_ws: "0 \<le> d \<Longrightarrow> d < 10 \<Longrightarrow> \<not> isWhiteSpace (digitChar d)"
  by (simp add: isWhiteSpace_def digitChar_def)

lemma showNat_ends: "showNat n \<noteq> [] \<and> \<not> isWhiteSpace (hd (showNat n)) \<and> \<not> isWhiteSpace (last (showNat n))"
proof (induction n rule: showNat.induct)
  case (1 n)
  show ?case
  proof (cases "n < 10")
    case True
    then have "\<not> isWhiteSpace (digitChar (int n))" by (intro digitChar_not_ws) simp_all
    with True show ?thesis by (subst (1 2 3) showNat.simps) simp
  next
    case False
    with 1 have ih: "showNat (n div 10) \<noteq> []" "\<not> isWhiteSpace (hd (showNat (n div 10)))" by auto
    have "n mod 10 < 10" by simp
    then have "\<not> isWhiteSpace (digitChar (int (n mod 10)))" by (intro digitChar_not_ws) simp_all
    with False ih show ?thesis by (subst (1 2 3) showNat.simps) simp
  qed
qed

lemma stringify_ends:
  "JSON_stringify v \<noteq> [] \<and> \<not> isWhiteSpace (hd (JSON_stringify v)) \<and> \<not> isWhiteSpace (last (JSON_stringify v))"
proof (cases v)
  case (JNum n)
  then show ?thesis using showNat_ends [of "nat n"] showNat_ends [of "nat (- n)"]
    by (simp add: showInt_def isWhiteSpace_def)
qed (simp_all add: isWhiteSpace_def quoteJSONString_def)

lemma indexOf_self_prefix: "indexOf (pat @ ys) pat = Some 0"
proof (cases "pat @ ys")
  case Nil
  then show ?thesis by simp
next
  case (Cons a list)
  have "prefix pat (pat @ ys)" by simp
  with Cons have "prefix pat (a # list)" by simp
  with Cons show ?thesis by simp
qed

lemma setAgentMeta_indexOf:
  "indexOf (setAgentMeta d m) sentinel = Some (length (getCleanDescription d) + 2)"
proof -
  let ?c = "getCleanDescription d"
  let ?rest = "sentinel @ CHR 0x0A # JSON_stringify m"
  have e: "setAgentMeta d m = ?c @ CHR 0x0A # ([] @ CHR 0x0A # ?rest)"
    by (simp add: setAgentMeta_def META_SEPARATOR_def)
  have r: "indexOf ?rest sentinel = Some 0"
    by (rule indexOf_self_prefix)
  have n: "indexOf [] sentinel = None" by (simp add: sentinel_facts)
  have "indexOf ([] @ CHR 0x0A # ?rest) sentinel = Some 1"
    using indexOf_append_sep [OF sentinel_facts(2) sentinel_facts(1) n, of ?rest] r by simp
  with indexOf_append_sep [OF sentinel_facts(2) sentinel_facts(1) clean_no_sentinel, of d "[] @ CHR 0x0A # ?rest"] e
  show ?thesis by simp
qed

lemma setAgentMeta_nonempty: "setAgentMeta d m \<noteq> []"
  by (simp add: setAgentMeta_def META_SEPARATOR_def)

lemma parse_embedded:
  "parseAgentMeta (Some (setAgentMeta d m)) = (case JSON_parse (JSON_stringify m) of Some v \<Rightarrow> v | None \<Rightarrow> JNull)"
proof -
  let ?c = "getCleanDescription d"
  have "drop (length ?c + 2 + length sentinel) (setAgentMeta d m) = [CHR 0x0A] @ JSON_stringify m"
    by (simp add: setAgentMeta_def META_SEPARATOR_def)
  moreover have "trim ([CHR 0x0A] @ JSON_stringify m) = JSON_stringify m"
    using stringify_ends [of m] by (intro trim_ws_prefix) (simp_all add: isWhiteSpace_def)
  ultimately show ?thesis
    using setAgentMeta_indexOf [of d m] setAgentMeta_nonempty [of d m]
    by (simp add: parseAgentMeta_def)
qed

text \<open>
  C2. For every description \<open>d\<close> and every meta \<open>m\<close> that survives JSON serialisation
  (\<open>JSON.parse(JSON.stringify(m))\<close> is \<open>m\<close>), parsing the description obtained by embedding
  \<open>m\<close> into the stripped \<open>d\<close> gives \<open>m\<close> back: \<open>parse(embed(strip(d), m)) = m\<close>.
\<close>

theorem meta_roundtrip:
  assumes "JSON_parse (JSON_stringify m) = Some m"
  shows "parseAgentMeta (Some (setAgentMeta (Some (getCleanDescription d)) m)) = m"
  using assms by (simp add: parse_embedded)

lemma strip_embedded:
  "getCleanDescription (Some (setAgentMeta d m)) = trim (getCleanDescription d)"
proof -
  let ?c = "getCleanDescription d"
  have "take (length ?c + 2) (setAgentMeta d m) = ?c @ [CHR 0x0A, CHR 0x0A]"
    by (simp add: setAgentMeta_def META_SEPARATOR_def)
  moreover have "trim (?c @ [CHR 0x0A, CHR 0x0A]) = trim ?c"
    by (rule trim_append_ws) (simp add: isWhiteSpace_def)
  ultimately show ?thesis
    using setAgentMeta_indexOf [of d m] setAgentMeta_nonempty [of d m]
    by (simp add: getCleanDescription_def)
qed

lemma occurrences_embedded:
  "occurrences sentinel (setAgentMeta d m) = 1 + occurrences sentinel (JSON_stringify m)"
proof -
  let ?c = "getCleanDescription d"
  have e: "setAgentMeta d m = ?c @ CHR 0x0A # ([] @ CHR 0x0A # (sentinel @ CHR 0x0A # JSON_stringify m))"
    by (simp add: setAgentMeta_def META_SEPARATOR_def)
  have s1: "occurrences sentinel sentinel = 1" by code_simp
  have s0: "occurrences sentinel [] = 0" by (simp add: sentinel_facts)
  note sep = occurrences_append_sep [OF sentinel_facts(2) sentinel_facts(1)]
  have "occurrences sentinel (setAgentMeta d m)
          = occurrences sentinel ?c + (occurrences sentinel [] + (occurrences sentinel sentinel + occurrences sentinel (JSON_stringify m)))"
    by (simp only: e sep)
  with s1 s0 occurrences_zero [OF clean_no_sentinel, of d] show ?thesis by simp
qed

text \<open>
  C3 (as amended). For every description \<open>d\<close> and every meta \<open>m\<close>, the string
  \<open>embed(d, m)\<close> contains one occurrence of the sentinel more than the serialised meta
  does (so exactly one when \<open>JSON.stringify(m)\<close> does not contain the sentinel), and
  \<open>strip(embed(d, m))\<close> is \<open>strip(d)\<close> trimmed.
\<close>

theorem embed_sentinel_count_and_strip:
  "occurrences sentinel (setAgentMeta d m) = 1 + occurrences sentinel (JSON_stringify m)
   \<and> getCleanDescription (Some (setAgentMeta d m)) = trim (getCleanDescription d)"
  by (simp add: occurrences_embedded strip_embedded)

text \<open>
  C3 as stated fails: a meta whose \<open>lastError\<close> quotes the sentinel is embedded with two
  occurrences, and a description without meta that starts with a blank is stripped to
  itself but, once a meta is embedded, to its trimmed form.
\<close>

theorem embed_counterexample:
  "occurrences sentinel (setAgentMeta (Some ''x'') (JObj [(''lastError'', JStr ''---agent-meta---'')])) = 2
   \<and> getCleanDescription (Some (setAgentMeta (Some '' a'') (JObj []))) \<noteq> getCleanDescription (Some '' a'')"
  by code_simp

text \<open>A witness of C2: a meta with strings (one with quotes), a number, a boolean and nulls.\<close>

theorem meta_roundtrip_witness:
  \<open>parseAgentMeta (Some (setAgentMeta (Some (getCleanDescription (Some (''fix login'' @ META_SEPARATOR @ ''{}''))))
      (JObj [(''agent'', JStr ''claude''), (''status'', JStr ''queued''), (''attempts'', JNum 2),
             (''startedAt'', JNull), (''lastError'', JStr ''Exit 1: a "quoted" line''), (''ok'', JBool False)])))
   = JObj [(''agent'', JStr ''claude''), (''status'', JStr ''queued''), (''attempts'', JNum 2),
             (''startedAt'', JNull), (''lastError'', JStr ''Exit 1: a "quoted" line''), (''ok'', JBool False)]\<close>
proof -
  let ?m = \<open>JObj [(''agent'', JStr ''claude''), (''status'', JStr ''queued''), (''attempts'', JNum 2),
             (''startedAt'', JNull), (''lastError'', JStr ''Exit 1: a "quoted" line''), (''ok'', JBool False)]\<close>
  have "JSON_parse (JSON_stringify ?m) = Some ?m" by code_simp
  from meta_roundtrip [OF this] show ?thesis .
qed

subsection \<open>The bounded capture of the supervisor\<close>

text \<open>For evaluation: the length test of the \<open>data\<close> handlers over the integers.\<close>

lemma onData_code [code]:
  "onData buf chunk = (if int (length buf) < 10485760 then buf @ chunk else buf)"
  by (simp add: onData_def MAX_STDOUT_def)

lemma capture_dropped: "MAX_STDOUT \<le> length acc \<Longrightarrow> foldl onData acc chunks = acc"
  by (induction chunks) (simp_all add: onData_def)

lemma capture_prefix: "prefix (foldl onData acc chunks) (acc @ concat chunks)"
proof (induction chunks arbitrary: acc)
  case Nil
  show ?case by simp
next
  case (Cons c cs)
  show ?case
  proof (cases "length acc < MAX_STDOUT")
    case True
    with Cons [of "acc @ c"] show ?thesis by (simp add: onData_def)
  next
    case False
    then have "foldl onData acc (c # cs) = acc" by (intro capture_dropped) simp
    then show ?thesis by simp
  qed
qed

lemma capture_full:
  "length (acc @ concat chunks) \<le> MAX_STDOUT \<Longrightarrow> foldl onData acc chunks = acc @ concat chunks"
proof (induction chunks arbitrary: acc)
  case Nil
  show ?case by simp
next
  case (Cons c cs)
  show ?case
  proof (cases "length acc < MAX_STDOUT")
    case True
    with Cons.IH [of "acc @ c"] Cons.prems show ?thesis by (simp add: onData_def)
  next
    case False
    from Cons.prems have "length acc + (length c + length (concat cs)) \<le> MAX_STDOUT" by simp
    with False have "length c = 0 \<and> length (concat cs) = 0" by linarith
    then have "c = []" "concat cs = []" by (simp_all only: length_0_conv)
    moreover from False have "foldl onData acc (c # cs) = acc" by (intro capture_dropped) simp
    ultimately show ?thesis by simp
  qed
qed

lemma capture_bound:
  "length acc < MAX_STDOUT + k \<Longrightarrow> \<forall>c\<in>set chunks. length c \<le> k
     \<Longrightarrow> length (foldl onData acc chunks) < MAX_STDOUT + k"
proof (induction chunks arbitrary: acc)
  case Nil
  then show ?case by simp
next
  case (Cons c cs)
  show ?case
  proof (cases "length acc < MAX_STDOUT")
    case True
    with Cons.prems have "length (acc @ c) < MAX_STDOUT + k" by simp
    with Cons.IH [of "acc @ c"] Cons.prems True show ?thesis by (simp add: onData_def)
  next
    case False
    with Cons.IH [of acc] Cons.prems show ?thesis by (simp add: onData_def)
  qed
qed

lemma supervise_close:
  "list_all (\<lambda>e. \<not> isTerminal e) pre \<Longrightarrow>
   supervise elapsed cap (pre @ Close code # post) =
     Some \<lparr>success = (code = Some 0 \<and> \<not> (cap_killed cap \<or> TimeoutFired \<in> set pre)),
           stdout = foldl onData (cap_stdout cap) (outChunks pre),
           stderr = foldl onData (cap_stderr cap) (errChunks pre),
           exitCode = code,
           durationMs = elapsed,
           timedOut = Some (cap_killed cap \<or> TimeoutFired \<in> set pre)\<rparr>"
proof (induction pre arbitrary: cap)
  case Nil
  show ?case by simp
next
  case (Cons e es)
  then show ?case by (cases e) auto
qed

text \<open>
  C6 (as amended). For every run of the child process that ends with \<open>close\<close>, the exit
  code is reported, and the captured \<open>stdout\<close> (resp. \<open>stderr\<close>) is the capture of the chunks
  emitted on that stream, where the capture of any sequence of chunks is a prefix of the
  output made of whole chunks, is the whole output when the output is at most 10 MiB long
  (exactly 10 MiB included), is shorter than 10 MiB plus the longest chunk, and ignores
  every chunk that arrives once 10 MiB or more are captured.
\<close>

theorem capture_soft_cap:
  assumes "list_all (\<lambda>e. \<not> isTerminal e) pre"
  shows "\<exists>r. supervise elapsed \<lparr>cap_stdout = [], cap_stderr = [], cap_killed = False\<rparr> (pre @ Close code # post) = Some r
           \<and> exitCode r = code
           \<and> stdout r = captureAll (outChunks pre)
           \<and> stderr r = captureAll (errChunks pre)
           \<and> (\<forall>chunks. prefix (captureAll chunks) (concat chunks)
                 \<and> (length (concat chunks) \<le> MAX_STDOUT \<longrightarrow> captureAll chunks = concat chunks)
                 \<and> (\<forall>k. (\<forall>c\<in>set chunks. length c \<le> k) \<longrightarrow> length (captureAll chunks) < MAX_STDOUT + k)
                 \<and> (\<forall>more. MAX_STDOUT \<le> length (captureAll chunks) \<longrightarrow> captureAll (chunks @ more) = captureAll chunks))"
proof -
  have a: "prefix (captureAll chunks) (concat chunks)" for chunks
    using capture_prefix [of "[]" chunks] by (simp add: captureAll_def)
  have b: "length (concat chunks) \<le> MAX_STDOUT \<longrightarrow> captureAll chunks = concat chunks" for chunks
    using capture_full [of "[]" chunks] by (simp add: captureAll_def)
  have c: "(\<forall>c\<in>set chunks. length c \<le> k) \<longrightarrow> length (captureAll chunks) < MAX_STDOUT + k" for chunks k
    using capture_bound [of "[]" k chunks] by (simp add: captureAll_def MAX_STDOUT_def)
  have d: "MAX_STDOUT \<le> length (captureAll chunks) \<longrightarrow> captureAll (chunks @ more) = captureAll chunks" for chunks more
    using capture_dropped [of "foldl onData [] chunks" more] by (simp add: captureAll_def)
  show ?thesis
    using supervise_close [OF assms, of elapsed "\<lparr>cap_stdout = [], cap_stderr = [], cap_killed = False\<rparr>" code post] a b c d
    by (simp add: captureAll_def)
qed

text \<open>A witness of C6: a short run, with output after \<open>close\<close> that no handler sees.\<close>

theorem capture_soft_cap_witness:
  "map_option stdout (supervise 7 \<lparr>cap_stdout = [], cap_stderr = [], cap_killed = False\<rparr>
      [StdoutData ''ab'', StderrData ''c'', StdoutData ''d'', Close (Some 1), StdoutData ''late'']) = Some ''abd''
   \<and> map_option exitCode (supervise 7 \<lparr>cap_stdout = [], cap_stderr = [], cap_killed = False\<rparr>
      [StdoutData ''ab'', StderrData ''c'', StdoutData ''d'', Close (Some 1), StdoutData ''late'']) = Some (Some 1)"
proof -
  let ?pre = "[StdoutData ''ab'', StderrData ''c'', StdoutData ''d'']"
  have p: "list_all (\<lambda>e. \<not> isTerminal e) ?pre" by simp
  from capture_soft_cap [OF p, of 7 "Some 1" "[StdoutData ''late'']"]
  obtain r where r: "supervise 7 \<lparr>cap_stdout = [], cap_stderr = [], cap_killed = False\<rparr> (?pre @ Close (Some 1) # [StdoutData ''late'']) = Some r"
    and e: "exitCode r = Some 1" and o: "stdout r = captureAll (outChunks ?pre)"
    and f: "length (concat (outChunks ?pre)) \<le> MAX_STDOUT \<longrightarrow> captureAll (outChunks ?pre) = concat (outChunks ?pre)"
    by blast
  have "length (concat (outChunks ?pre)) \<le> MAX_STDOUT" by (simp add: MAX_STDOUT_def)
  with f o have "stdout r = ''abd''" by simp
  with r e show ?thesis by simp
qed

text \<open>
  C6 as stated fails: a chunk that arrives when one character less than 10 MiB is captured
  is appended whole, so more than 10 MiB are captured.
\<close>

theorem capture_counterexample:
  "map_option (length \<circ> stdout)
     (supervise 0 \<lparr>cap_stdout = [], cap_stderr = [], cap_killed = False\<rparr>
        [StdoutData (replicate 10485759 CHR ''a''), StdoutData ''bb'', Close (Some 0)])
   = Some 10485761
   \<and> MAX_STDOUT < 10485761"
  by (simp add: onData_def MAX_STDOUT_def)

subsection \<open>The router\<close>














text \<open>
  Why the ids must not be array indices: the \<open>scores\<close> object enumerates such keys in
  numeric order, whatever the registry order.
\<close>

lemma route_array_index_ids:
  "routeToAgent [exAgent2, exAgent1] exTask = JStr ''1''"
  by code_simp

subsection \<open>Processing a task: retry, review and the override to an unknown agent\<close>

lemma map_of_update_key:
  "k \<in> fst ` set kvs \<Longrightarrow>
   map_of (map (\<lambda>(k', v'). if k' = k then (k', v) else (k', v')) kvs) = (map_of kvs)(k \<mapsto> v)"
proof (induction kvs)
  case Nil
  then show ?case by simp
next
  case (Cons x xs)
  show ?case
  proof (cases "k \<in> fst ` set xs")
    case True
    with Cons.IH show ?thesis by (cases x) (auto simp: fun_eq_iff)
  next
    case False
    with Cons.prems have fx: "fst x = k" by auto
    have "map (\<lambda>(k', v'). if k' = k then (k', v) else (k', v')) xs = xs"
      using False by (induction xs) auto
    with fx show ?thesis by (cases x) (auto simp: fun_eq_iff)
  qed
qed

lemma map_of_insertIndexKey:
  "k \<notin> fst ` set kvs \<Longrightarrow> map_of (insertIndexKey (k, v) kvs) = (map_of kvs)(k \<mapsto> v)"
  by (induction kvs) (auto simp: fun_eq_iff)

lemma map_of_setKey: "map_of (setKey k v kvs) = (map_of kvs)(k \<mapsto> v)"
proof (cases "k \<in> fst ` set kvs")
  case True
  then show ?thesis using map_of_update_key [of k kvs v] by (simp add: setKey_def)
next
  case False
  then have "map_of kvs k = None" by (simp add: map_of_eq_None_iff)
  with False show ?thesis using map_of_insertIndexKey [of k kvs v]
    by (auto simp: setKey_def fun_eq_iff map_add_def split: option.splits)
qed


lemma getProp_setProp_obj: "getProp (setProp (JObj kvs) k v) k' = (if k' = k then Some v else map_of kvs k')"
  by (simp add: map_of_setKey)


lemma setProp_obj: "\<exists>kvs'. setProp (JObj kvs) k v = JObj kvs'"
  by simp
















subsection \<open>The board clients and the LLM fallback chain\<close>

lemma kanbanFetch_401_retry:
  assumes "KANBAN_TOKEN \<noteq> []"
    and "fetch \<lparr>hq_url = KANBAN_API @ path, hq_method = method,
                 hq_authorization = Some (''Bearer '' @ KANBAN_TOKEN), hq_body = body\<rparr> = Response 401 payload"
  shows "kanbanFetch KANBAN_API KANBAN_TOKEN fetch path method body =
           (case fetch \<lparr>hq_url = KANBAN_API @ path, hq_method = method, hq_authorization = None, hq_body = body\<rparr> of
              NetworkError e \<Rightarrow> Inl e
            | Response status2 payload2 \<Rightarrow>
                if resp_ok status2 then resp_json payload2
                else Inl (''Kanban API '' @ path @ '': '' @ showNat status2 @ '' (no-auth retry)''),
            [\<lparr>hq_url = KANBAN_API @ path, hq_method = method,
              hq_authorization = Some (''Bearer '' @ KANBAN_TOKEN), hq_body = body\<rparr>,
             \<lparr>hq_url = KANBAN_API @ path, hq_method = method, hq_authorization = None, hq_body = body\<rparr>])"
  using assms by (simp add: kanbanFetch_def Let_def split: HttpResponse.splits)

lemma kanbanRequest_not_ok:
  assumes "fetch \<lparr>hq_url = KANBAN_API @ urlPath, hq_method = method,
                 hq_authorization = (if KANBAN_TOKEN \<noteq> [] then Some (''Bearer '' @ KANBAN_TOKEN) else None),
                 hq_body = body\<rparr> = Response status payload"
    and "\<not> resp_ok status"
  shows "kanbanRequest KANBAN_API KANBAN_TOKEN fetch method urlPath body =
           (Inl (''Kanban '' @ method @ '' '' @ urlPath @ '': '' @ showNat status),
            [\<lparr>hq_url = KANBAN_API @ urlPath, hq_method = method,
              hq_authorization = (if KANBAN_TOKEN \<noteq> [] then Some (''Bearer '' @ KANBAN_TOKEN) else None),
              hq_body = body\<rparr>])"
  using assms by (simp add: kanbanRequest_def Let_def)

lemma kanbanRequest_single: "length (snd (kanbanRequest KANBAN_API KANBAN_TOKEN fetch method urlPath body)) = 1"
  by (simp add: kanbanRequest_def Let_def split: HttpResponse.splits)

lemma kanbanFetch_example:
  \<open>kanbanFetch ''https://board'' ''tok'' exFetchTokenMismatch ''/api/board'' ''GET'' None =
     (Inr (JObj [(''ok'', JBool True)]),
      [\<lparr>hq_url = ''https://board/api/board'', hq_method = ''GET'', hq_authorization = Some ''Bearer tok'', hq_body = None\<rparr>,
       \<lparr>hq_url = ''https://board/api/board'', hq_method = ''GET'', hq_authorization = None, hq_body = None\<rparr>])\<close>
  by code_simp

text \<open>
  C4 fails on the task runner: with a token configured and a board that answers 401 to the
  token and 200 to anonymous requests, \<open>kanbanGet\<close>, \<open>kanbanPut\<close> and \<open>kanbanPost\<close> of the
  task runner send one request and throw, where \<open>kanbanFetch\<close> of the spec server retries
  without the header and succeeds (\<open>kanbanFetch_example\<close>).
\<close>

theorem taskRunner_401_not_retried:
  \<open>kanbanGet ''https://board'' ''tok'' exFetchTokenMismatch ''/api/board'' =
     (Inl ''Kanban GET /api/board: 401'',
      [\<lparr>hq_url = ''https://board/api/board'', hq_method = ''GET'', hq_authorization = Some ''Bearer tok'', hq_body = None\<rparr>])
   \<and> fst (kanbanPut ''https://board'' ''tok'' exFetchTokenMismatch ''/api/tasks/task-a/move'' (JObj [(''targetColumnId'', JStr ''col-q'')]))
        = Inl ''Kanban PUT /api/tasks/task-a/move: 401''
   \<and> fst (kanbanPost ''https://board'' ''tok'' exFetchTokenMismatch ''/api/board'' (JObj [(''columns'', JArr [])]))
        = Inl ''Kanban POST /api/board: 401''\<close>
  by code_simp






subsection \<open>The structured output extractor\<close>




text \<open>
  The other layers on examples: unescaped quotes inside \<open>spec\<close> after a \<open><think>\<close> block (the
  last layer), an object inside prose with no \<open>tasks\<close> (the second layer), and no JSON.
\<close>

lemma extractJSON_regex_layer:
  \<open>extractJSON exThinkOutput =
     Inr (JObj [(''spec'', JStr ''say "hi" twice''), (''tasks'', JArr [JObj [(''title'', JStr ''T''), (''details'', JStr ''D'')]])])\<close>
  by code_simp

lemma extractJSON_missing_tasks:
  \<open>extractJSON ''Here you go: {"spec":"# Y"} done'' = Inr (JObj [(''spec'', JStr ''# Y''), (''tasks'', JArr [])])\<close>
  by code_simp

lemma extractJSON_fails:
  "extractJSON ''no json here'' = Inl ''Could not extract spec JSON from LLM output''"
  by code_simp

end
